theory Spec2Isabelle
  imports Main
begin

section \<open>Documents and collections\<close>

text \<open>
  The server of \<^verbatim>\<open>src/index.js\<close> keeps three MongoDB collections: \<^verbatim>\<open>debates\<close>,
  \<^verbatim>\<open>joinedDebate\<close> and \<^verbatim>\<open>leaderboard\<close>. A collection is a list of documents in
  natural order; a document is a record of the fields the handlers read and write.
  Field values that the handlers only copy are JSON values.
\<close>

datatype json =
    JNull
  | JBool bool
  | JNum int
  | JStr string
  | JArr "json list"
  | JObj "(string \<times> json) list"

text \<open>
  A debate as \<^verbatim>\<open>POST /debates\<close> inserts it (lines 50-59); \<open>doc_id\<close> is the field
  \<^verbatim>\<open>_id\<close>. The type \<open>'oid\<close> is the driver's ObjectId.
\<close>

record 'oid debate =
  doc_id :: 'oid
  title :: json
  description :: json
  tags :: json
  category :: json
  duration :: json
  support :: "string list"
  oppose :: "string list"
  createdAt :: int

text \<open>A joined-debate document: the fields of the \<^verbatim>\<open>$set\<close> of lines 100-110.\<close>

record joinedDebate =
  debateId :: string
  name :: string
  side :: string
  title :: json
  description :: json
  category :: json
  duration :: json
  tags :: json
  joinedAt :: int

text \<open>
  A document of the \<^verbatim>\<open>leaderboard\<close> collection, read by the aggregation of lines
  170-186. Its \<open>votes\<close> is an integer.
\<close>

record vote =
  userName :: string
  debateId :: string
  votes :: int
  createdAt :: int

record 'oid db =
  debateCollection :: "'oid debate list"
  joinedDebateCollection :: "joinedDebate list"
  argumentsCollection :: "vote list"

subsection \<open>Store primitives\<close>

text \<open>\<^verbatim>\<open>findOne(q)\<close>: the first document that matches.\<close>

definition findOne :: "('d \<Rightarrow> bool) \<Rightarrow> 'd list \<Rightarrow> 'd option" where
  "findOne q ds = find q ds"

text \<open>\<^verbatim>\<open>updateOne(q, u)\<close>: the update applied to the first document that matches, if any.\<close>

fun updateOne :: "('d \<Rightarrow> bool) \<Rightarrow> ('d \<Rightarrow> 'd) \<Rightarrow> 'd list \<Rightarrow> 'd list" where
  "updateOne q u [] = []"
| "updateOne q u (d # ds) = (if q d then u d # ds else d # updateOne q u ds)"

text \<open>
  \<^verbatim>\<open>updateOne(q, u, {upsert: true})\<close>: as \<open>updateOne\<close> when a document matches, and
  otherwise the insertion of a new document \<open>new\<close> (the equality fields of the query with
  the update applied).
\<close>

definition upsertOne :: "('d \<Rightarrow> bool) \<Rightarrow> ('d \<Rightarrow> 'd) \<Rightarrow> 'd \<Rightarrow> 'd list \<Rightarrow> 'd list" where
  "upsertOne q u new ds =
     (case find q ds of None \<Rightarrow> ds @ [new] | Some _ \<Rightarrow> updateOne q u ds)"

text \<open>\<^verbatim>\<open>$pull\<close> removes every instance of a value from an array.\<close>

definition pull :: "'a \<Rightarrow> 'a list \<Rightarrow> 'a list" where
  "pull x xs = filter (\<lambda>y. y \<noteq> x) xs"

text \<open>\<^verbatim>\<open>$addToSet\<close> appends a value to an array unless the array holds it already.\<close>

definition addToSet :: "'a \<Rightarrow> 'a list \<Rightarrow> 'a list" where
  "addToSet x xs = (if x \<in> set xs then xs else xs @ [x])"

section \<open>The join handler\<close>

text \<open>
  \<^verbatim>\<open>String.prototype.toLowerCase\<close> on the ASCII letters (the only strings that reach it
  are \<^verbatim>\<open>Support\<close> and \<^verbatim>\<open>Oppose\<close>).
\<close>

definition lower_char :: "char \<Rightarrow> char" where
  "lower_char c =
     (let n = (of_char c :: nat) in if 65 \<le> n \<and> n \<le> 90 then char_of (n + 32) else c)"

definition toLowerCase :: "string \<Rightarrow> string" where
  "toLowerCase s = map lower_char s"

text \<open>
  The update \<^verbatim>\<open>{ $addToSet: { [sideField]: name } }\<close> of line 93, whose field name is
  computed. Any other field name would make MongoDB create a new array field, which a
  debate record cannot hold; no such name reaches the update, since \<open>sideField\<close> is the
  lower-cased \<^verbatim>\<open>Support\<close> or \<^verbatim>\<open>Oppose\<close>.
\<close>

definition addToSetField :: "string \<Rightarrow> string \<Rightarrow> 'oid debate \<Rightarrow> 'oid debate" where
  "addToSetField sideField n d =
     (if sideField = ''support'' then d\<lparr>support := addToSet n (support d)\<rparr>
      else if sideField = ''oppose'' then d\<lparr>oppose := addToSet n (oppose d)\<rparr>
      else d)"

text \<open>An element of the leaderboard: the output of the second \<^verbatim>\<open>$group\<close>; \<open>entry_id\<close> is \<^verbatim>\<open>_id\<close>.\<close>

record entry =
  entry_id :: string
  totalVotes :: int
  debatesParticipated :: int

text \<open>
  A response: its status and JSON body, \<^verbatim>\<open>{error: ...}\<close>, \<^verbatim>\<open>{message: ...}\<close> or the
  leaderboard array.
\<close>

datatype payload = Error string | Message string | Leaderboard "entry list"

record response =
  status :: nat
  payload :: payload

text \<open>
  The body of a join request, \<^verbatim>\<open>const { name, side } = req.body\<close>: \<open>None\<close> is an
  absent key. Both fields are taken to be strings when they are present: a participant
  name is a string, and a side that is not a string fails the test of line 75 as a
  string other than \<^verbatim>\<open>Support\<close> and \<^verbatim>\<open>Oppose\<close> does.
\<close>

record req_body =
  name :: "string option"
  side :: "string option"

text \<open>
  \<^verbatim>\<open>POST /debates/:id/join\<close> for a request whose body was parsed: lines 72-119 with
  \<^verbatim>\<open>req.body\<close> an object. The request gives the path parameter \<open>id'\<close> and the body.
  \<open>ObjectId\<close> is the driver's constructor: \<open>None\<close> when it throws, which the \<^verbatim>\<open>catch\<close>
  of line 116 turns into status 500. \<open>now\<close> is the value of \<^verbatim>\<open>new Date()\<close> at line 109.
  The store itself is taken to answer every call.
\<close>

definition join ::
  "(string \<Rightarrow> 'oid option) \<Rightarrow> int \<Rightarrow> string \<Rightarrow> req_body \<Rightarrow> 'oid db
     \<Rightarrow> response \<times> 'oid db" where
  "join ObjectId now id' body db =
     (let invalid = (\<lparr>status = 400,
            payload = Error ''Name and valid side are required (Support or Oppose)''\<rparr>, db)
      in case (req_body.name body, req_body.side body) of
        (Some n, Some s) \<Rightarrow>
          if n = [] \<or> s \<notin> set [''Support'', ''Oppose''] then invalid
          else (case ObjectId id' of
            None \<Rightarrow> (\<lparr>status = 500, payload = Error ''Internal server error''\<rparr>, db)
          | Some oid \<Rightarrow>
            (case findOne (\<lambda>d. doc_id d = oid) (debateCollection db) of
              None \<Rightarrow> (\<lparr>status = 404, payload = Error ''Debate not found''\<rparr>, db)
            | Some debate \<Rightarrow>
                let debates1 = updateOne (\<lambda>d. doc_id d = oid)
                      (\<lambda>d. d\<lparr>support := pull n (support d), oppose := pull n (oppose d)\<rparr>)
                      (debateCollection db);
                    sideField = toLowerCase s;
                    debates2 = updateOne (\<lambda>d. doc_id d = oid) (addToSetField sideField n) debates1;
                    joined = upsertOne
                      (\<lambda>j. joinedDebate.debateId j = id' \<and> joinedDebate.name j = n)
                      (\<lambda>j. j\<lparr>joinedDebate.debateId := id', joinedDebate.name := n, joinedDebate.side := s,
                          joinedDebate.title := debate.title debate,
                          joinedDebate.description := debate.description debate,
                          joinedDebate.category := debate.category debate,
                          joinedDebate.duration := debate.duration debate,
                          joinedDebate.tags := debate.tags debate,
                          joinedAt := now\<rparr>)
                      \<lparr>joinedDebate.debateId = id', joinedDebate.name = n, joinedDebate.side = s,
                        joinedDebate.title = debate.title debate,
                        joinedDebate.description = debate.description debate,
                        joinedDebate.category = debate.category debate,
                        joinedDebate.duration = debate.duration debate,
                        joinedDebate.tags = debate.tags debate,
                        joinedAt = now\<rparr>
                      (joinedDebateCollection db)
                in (\<lparr>status = 200,
                      payload = Message (''Successfully joined the debate as '' @ s)\<rparr>,
                    db\<lparr>debateCollection := debates2, joinedDebateCollection := joined\<rparr>)))
      | _ \<Rightarrow> invalid)"

text \<open>
  The whole handler (lines 71-120). Whether \<^verbatim>\<open>req.body\<close> is an object for every request
  depends on the version of express, which the source does not fix: \<^verbatim>\<open>express.json()\<close>
  of express 4 makes it an empty object when there is no JSON body to parse, that of
  express 5 leaves it \<^verbatim>\<open>undefined\<close>. The body is \<open>None\<close> for \<^verbatim>\<open>undefined\<close>: the
  destructuring of line 73 then throws, before the \<^verbatim>\<open>try\<close> of line 79, so the handler
  sends no response of its own (\<open>None\<close>; express 5 answers 500 through its error handler)
  and writes nothing.
\<close>

definition join_request ::
  "(string \<Rightarrow> 'oid option) \<Rightarrow> int \<Rightarrow> string \<Rightarrow> req_body option \<Rightarrow> 'oid db
     \<Rightarrow> response option \<times> 'oid db" where
  "join_request ObjectId now id' body db =
     (case body of
        None \<Rightarrow> (None, db)
      | Some b \<Rightarrow> (let (r, db') = join ObjectId now id' b db in (Some r, db')))"

text \<open>
  A run of join requests with the same path parameter and body, one after the other, at
  the times \<open>ts\<close>: the responses in order and the final state.
\<close>

fun rejoin ::
  "(string \<Rightarrow> 'oid option) \<Rightarrow> string \<Rightarrow> req_body \<Rightarrow> int list \<Rightarrow> 'oid db
     \<Rightarrow> response list \<times> 'oid db" where
  "rejoin ObjectId id' body [] db = ([], db)"
| "rejoin ObjectId id' body (t # ts) db =
     (let (r, db1) = join ObjectId t id' body db;
          (rs, db2) = rejoin ObjectId id' body ts db1
      in (r # rs, db2))"

section \<open>Dates\<close>

text \<open>
  The leaderboard handler computes with the built-in \<^verbatim>\<open>Date\<close>. Its operations follow
  the ECMAScript specification (section "Date Objects"): a time value is a number of
  milliseconds since the epoch, days are counted from the epoch, and the division is the
  floor division, which is what \<open>div\<close> is on \<open>int\<close>.
\<close>

definition msPerDay :: int where
  "msPerDay = 86400000"

definition Day :: "int \<Rightarrow> int" where
  "Day t = t div msPerDay"

definition DaysInYear :: "int \<Rightarrow> int" where
  "DaysInYear y =
     (if y mod 4 \<noteq> 0 then 365 else if y mod 100 \<noteq> 0 then 366
      else if y mod 400 \<noteq> 0 then 365 else 366)"

definition DayFromYear :: "int \<Rightarrow> int" where
  "DayFromYear y =
     365 * (y - 1970) + (y - 1969) div 4 - (y - 1901) div 100 + (y - 1601) div 400"

text \<open>
  The day on which a year starts: each year adds its number of days. The search for the
  year of a day below terminates by this.
\<close>

lemma div_succ:
  fixes a k :: int
  assumes "0 < k"
  shows "(a + 1) div k = a div k + (if (a + 1) mod k = 0 then 1 else 0)"
proof -
  have e: "k * (a div k) + a mod k = a" by simp
  have r: "0 \<le> a mod k" "a mod k < k" using assms by simp_all
  show ?thesis
  proof (cases "a mod k = k - 1")
    case True
    have "k * (a div k + 1) = k * (a div k) + k" by (simp add: algebra_simps)
    with e True have "a + 1 = k * (a div k + 1) + 0" by linarith
    from int_div_pos_eq[OF this] int_mod_pos_eq[OF this] assms show ?thesis by simp
  next
    case False
    from e have "a + 1 = k * (a div k) + (a mod k + 1)" by linarith
    from int_div_pos_eq[OF this] int_mod_pos_eq[OF this] r False show ?thesis by simp
  qed
qed

lemma div_step:
  fixes y c k :: int
  assumes "0 < k" and "c mod k = 0"
  shows "(y - c) div k = (y - (c + 1)) div k + (if y mod k = 0 then 1 else 0)"
proof -
  have "(y - c) mod k = y mod k"
    using assms(2) by (metis diff_zero mod_diff_right_eq)
  with div_succ[OF assms(1), of "y - (c + 1)"] show ?thesis by simp
qed

lemma DayFromYear_Suc: "DayFromYear (y + 1) = DayFromYear y + DaysInYear y"
proof -
  have m: "y mod 100 = 0 \<Longrightarrow> y mod 4 = 0" "y mod 400 = 0 \<Longrightarrow> y mod 100 = 0"
    using mod_mod_cancel[of 4 100 y] mod_mod_cancel[of 100 400 y] by simp_all
  have a: "(y - 1968) div 4 = (y - 1969) div 4 + (if y mod 4 = 0 then 1 else 0)"
    using div_step[of 4 1968 y] by simp
  have b: "(y - 1900) div 100 = (y - 1901) div 100 + (if y mod 100 = 0 then 1 else 0)"
    using div_step[of 100 1900 y] by simp
  have c: "(y - 1600) div 400 = (y - 1601) div 400 + (if y mod 400 = 0 then 1 else 0)"
    using div_step[of 400 1600 y] by simp
  have e: "DayFromYear (y + 1) =
      365 * (y - 1969) + (y - 1968) div 4 - (y - 1900) div 100 + (y - 1600) div 400"
    by (simp add: DayFromYear_def)
  show ?thesis
    unfolding e a b c unfolding DayFromYear_def DaysInYear_def
    using m by (cases "y mod 4 = 0"; cases "y mod 100 = 0"; cases "y mod 400 = 0") simp_all
qed

text \<open>
  \<open>YearFromTime t\<close> is the largest year \<open>y\<close> with \<open>DayFromYear y \<le> Day t\<close>
  (lemma \<open>YearFromTime_bounds\<close>). It is found by counting up from a year that is not
  after it.
\<close>

function year_up :: "int \<Rightarrow> int \<Rightarrow> int" where
  "year_up y d = (if DayFromYear (y + 1) \<le> d then year_up (y + 1) d else y)"
  by pat_completeness auto
termination
proof (relation "measure (\<lambda>(y, d). nat (d - DayFromYear y))")
  show "wf (measure (\<lambda>(y, d). nat (d - DayFromYear y)))" by simp
next
  fix y d :: int
  assume "DayFromYear (y + 1) \<le> d"
  moreover have "DayFromYear y < DayFromYear (y + 1)"
    unfolding DayFromYear_Suc by (simp add: DaysInYear_def)
  ultimately show "((y + 1, d), (y, d)) \<in> measure (\<lambda>(y, d). nat (d - DayFromYear y))"
    by simp
qed

declare year_up.simps [simp del]

definition YearFromTime :: "int \<Rightarrow> int" where
  "YearFromTime t =
     (let d = Day t in year_up (1970 + (if 0 \<le> d then d div 366 else d div 365)) d)"

definition InLeapYear :: "int \<Rightarrow> int" where
  "InLeapYear t = (if DaysInYear (YearFromTime t) = 366 then 1 else 0)"

definition DayWithinYear :: "int \<Rightarrow> int" where
  "DayWithinYear t = Day t - DayFromYear (YearFromTime t)"

text \<open>The day within the year on which month \<open>m\<close> (0 to 11) starts; \<open>leap\<close> is 0 or 1.\<close>

definition month_start :: "int \<Rightarrow> int \<Rightarrow> int" where
  "month_start leap m =
     (if m = 0 then 0 else if m = 1 then 31 else if m = 2 then 59 + leap
      else if m = 3 then 90 + leap else if m = 4 then 120 + leap
      else if m = 5 then 151 + leap else if m = 6 then 181 + leap
      else if m = 7 then 212 + leap else if m = 8 then 243 + leap
      else if m = 9 then 273 + leap else if m = 10 then 304 + leap
      else 334 + leap)"

definition MonthFromTime :: "int \<Rightarrow> int" where
  "MonthFromTime t =
     (let d = DayWithinYear t; leap = InLeapYear t in
      if d < 31 then 0 else if d < 59 + leap then 1 else if d < 90 + leap then 2
      else if d < 120 + leap then 3 else if d < 151 + leap then 4
      else if d < 181 + leap then 5 else if d < 212 + leap then 6
      else if d < 243 + leap then 7 else if d < 273 + leap then 8
      else if d < 304 + leap then 9 else if d < 334 + leap then 10 else 11)"

definition DateFromTime :: "int \<Rightarrow> int" where
  "DateFromTime t = DayWithinYear t - month_start (InLeapYear t) (MonthFromTime t) + 1"

text \<open>
  \<open>MakeDay year month date\<close>: the day number of the first of the month \<open>month mod 12\<close> of
  the year \<open>year + month div 12\<close>, plus \<open>date - 1\<close> (lemma \<open>MakeDay_first\<close> shows that
  this day is the first of that month of that year).
\<close>

definition MakeDay :: "int \<Rightarrow> int \<Rightarrow> int \<Rightarrow> int" where
  "MakeDay year month date =
     (let ym = year + month div 12; mn = month mod 12 in
      DayFromYear ym + month_start (if DaysInYear ym = 366 then 1 else 0) mn + date - 1)"

definition MakeDate :: "int \<Rightarrow> int \<Rightarrow> int" where
  "MakeDate day time = day * msPerDay + time"

text \<open>
  The host's time zone is the parameter \<open>LocalTZA\<close>: \<open>LocalTZA t True\<close> is the offset of
  local time at the UTC time \<open>t\<close>, \<open>LocalTZA t False\<close> the offset at the local time \<open>t\<close>.
\<close>

definition LocalTime :: "(int \<Rightarrow> bool \<Rightarrow> int) \<Rightarrow> int \<Rightarrow> int" where
  "LocalTime LocalTZA t = t + LocalTZA t True"

definition UTC :: "(int \<Rightarrow> bool \<Rightarrow> int) \<Rightarrow> int \<Rightarrow> int" where
  "UTC LocalTZA t = t - LocalTZA t False"

definition getFullYear :: "(int \<Rightarrow> bool \<Rightarrow> int) \<Rightarrow> int \<Rightarrow> int" where
  "getFullYear LocalTZA t = YearFromTime (LocalTime LocalTZA t)"

definition getMonth :: "(int \<Rightarrow> bool \<Rightarrow> int) \<Rightarrow> int \<Rightarrow> int" where
  "getMonth LocalTZA t = MonthFromTime (LocalTime LocalTZA t)"

definition getDate :: "(int \<Rightarrow> bool \<Rightarrow> int) \<Rightarrow> int \<Rightarrow> int" where
  "getDate LocalTZA t = DateFromTime (LocalTime LocalTZA t)"

text \<open>
  \<^verbatim>\<open>new Date(year, month, date)\<close>: local midnight of that day. A year from 0 to 99 stands
  for 1900 plus that year. The constructor ends with \<open>TimeClip\<close>, which is the identity
  on the time values within 8.64e15 milliseconds of the epoch; the clock's time is among
  them, and \<open>TimeClip\<close> is left out.
\<close>

definition Date3 :: "(int \<Rightarrow> bool \<Rightarrow> int) \<Rightarrow> int \<Rightarrow> int \<Rightarrow> int \<Rightarrow> int" where
  "Date3 LocalTZA year month date =
     (let yr = (if 0 \<le> year \<and> year \<le> 99 then 1900 + year else year);
          finalDate = MakeDate (MakeDay yr month date) 0
      in UTC LocalTZA finalDate)"

section \<open>The leaderboard handler\<close>

text \<open>
  Lines 156-164: \<^verbatim>\<open>req.query.filter || 'all'\<close>, and the start of the window, \<open>None\<close> for
  \<^verbatim>\<open>null\<close>. \<open>now\<close> is the value of \<^verbatim>\<open>new Date()\<close> at line 157.
\<close>

definition filter_of :: "string option \<Rightarrow> string" where
  "filter_of q = (case q of None \<Rightarrow> ''all'' | Some f \<Rightarrow> if f = [] then ''all'' else f)"

definition startDate :: "(int \<Rightarrow> bool \<Rightarrow> int) \<Rightarrow> int \<Rightarrow> string \<Rightarrow> int option" where
  "startDate LocalTZA now f =
     (if f = ''weekly'' then
        Some (Date3 LocalTZA (getFullYear LocalTZA now) (getMonth LocalTZA now)
                (getDate LocalTZA now - 7))
      else if f = ''monthly'' then
        Some (Date3 LocalTZA (getFullYear LocalTZA now) (getMonth LocalTZA now - 1)
                (getDate LocalTZA now))
      else None)"

text \<open>
  Line 167 and the \<^verbatim>\<open>$match\<close> stage: every document when \<open>startDate\<close> is \<^verbatim>\<open>null\<close>,
  and otherwise the documents with \<^verbatim>\<open>createdAt >= startDate\<close>.
\<close>

definition match_stage :: "int option \<Rightarrow> vote list \<Rightarrow> vote list" where
  "match_stage start recs =
     (case start of None \<Rightarrow> recs | Some s \<Rightarrow> filter (\<lambda>r. s \<le> vote.createdAt r) recs)"

text \<open>
  The sums of the two \<^verbatim>\<open>$group\<close> stages reach the client as JavaScript numbers, which
  hold the integers from \<open>- MAX_SAFE_INTEGER\<close> to \<open>MAX_SAFE_INTEGER\<close> exactly. The sums
  below are sums of integers. They are the sums of the code as long as no partial sum
  leaves that range, in whatever order the engine adds the documents up; that is so when
  the absolute values of the votes add up to at most \<open>MAX_SAFE_INTEGER\<close>
  (\<open>safe_votes\<close>). Beyond it the code rounds and the sums below do not.
\<close>

definition MAX_SAFE_INTEGER :: int where
  "MAX_SAFE_INTEGER = 2 ^ 53 - 1"

definition safe_votes :: "vote list \<Rightarrow> bool" where
  "safe_votes recs = (sum_list (map (\<lambda>r. \<bar>votes r\<bar>) recs) \<le> MAX_SAFE_INTEGER)"

text \<open>
  The first \<^verbatim>\<open>$group\<close>: one row for each pair of user name and debate, with the sum of
  the votes of its documents. MongoDB leaves the order of the groups open; here a group
  stands where the last of its documents stood.
\<close>

record row =
  row_id :: "string \<times> string"
  totalVotesPerDebate :: int

definition group_per_debate :: "vote list \<Rightarrow> row list" where
  "group_per_debate recs =
     map (\<lambda>k. \<lparr>row_id = k,
                totalVotesPerDebate =
                  sum_list (map votes (filter (\<lambda>r. (userName r, vote.debateId r) = k) recs))\<rparr>)
       (remdups (map (\<lambda>r. (userName r, vote.debateId r)) recs))"

text \<open>
  The second \<^verbatim>\<open>$group\<close>: one entry for each user name, with the sum of the rows'
  subtotals and the number of the rows.
\<close>

definition group_per_user :: "row list \<Rightarrow> entry list" where
  "group_per_user rows =
     map (\<lambda>u. \<lparr>entry_id = u,
                totalVotes =
                  sum_list (map totalVotesPerDebate (filter (\<lambda>r. fst (row_id r) = u) rows)),
                debatesParticipated = int (length (filter (\<lambda>r. fst (row_id r) = u) rows))\<rparr>)
       (remdups (map (\<lambda>r. fst (row_id r)) rows))"

text \<open>\<^verbatim>\<open>{ $sort: { totalVotes: -1 } }\<close>, as a stable sort.\<close>

definition sort_stage :: "entry list \<Rightarrow> entry list" where
  "sort_stage es = sort_key (\<lambda>e. - totalVotes e) es"

definition aggregate :: "int option \<Rightarrow> vote list \<Rightarrow> entry list" where
  "aggregate start recs = sort_stage (group_per_user (group_per_debate (match_stage start recs)))"

text \<open>\<^verbatim>\<open>GET /leaderboard\<close> (lines 155-194); \<open>q\<close> is \<^verbatim>\<open>req.query.filter\<close>.\<close>

definition leaderboard ::
  "(int \<Rightarrow> bool \<Rightarrow> int) \<Rightarrow> int \<Rightarrow> string option \<Rightarrow> 'oid db \<Rightarrow> response" where
  "leaderboard LocalTZA now q db =
     (let f = filter_of q;
          start = startDate LocalTZA now f
      in \<lparr>status = 200, payload = Leaderboard (aggregate start (argumentsCollection db))\<rparr>)"

text \<open>The key of the joined collection: no two records for one pair of identifier and name.\<close>

definition joined_keys_unique :: "joinedDebate list \<Rightarrow> bool" where
  "joined_keys_unique js =
     distinct (map (\<lambda>j. (joinedDebate.debateId j, joinedDebate.name j)) js)"

subsection \<open>An ObjectId constructor and a store for the examples\<close>

text \<open>
  Every version of the driver accepts a string of 24 hexadecimal digits, read without
  regard to case, and throws on a string of 24 characters with another character among
  them and on a string of any other length but 12; what it does with a string of length
  12 depends on the version. The handlers take the constructor as a
  parameter for that reason. \<open>ObjectId_hex\<close> is the constructor that accepts the 24-digit
  strings only; an ObjectId is then its hexadecimal string in lower case.
\<close>

definition is_hex_digit :: "char \<Rightarrow> bool" where
  "is_hex_digit c = (c \<in> set ''0123456789abcdefABCDEF'')"

definition ObjectId_hex :: "string \<Rightarrow> string option" where
  "ObjectId_hex s =
     (if length s = 24 \<and> list_all is_hex_digit s then Some (toLowerCase s) else None)"

definition db0 :: "string db" where
  "db0 = \<lparr>debateCollection =
      [\<lparr>doc_id = ''64b7f0c2a1d3e4f5a6b7c8d9'', title = JStr ''Tabs or spaces'',
        description = JStr ''Indentation'', tags = JArr [JStr ''style''],
        category = JStr ''tech'', duration = JNum 3600,
        support = [''bob'', ''alice''], oppose = [''alice''], createdAt = 0\<rparr>],
     joinedDebateCollection = [], argumentsCollection = []\<rparr>"

text \<open>
  A host on UTC, the time 2025-11-02T15:00:00Z, and three vote documents: of
  2025-10-26T05:00:00Z, 2025-10-25T23:00:00Z and 2025-11-01T12:26:40Z.
\<close>

definition utc0 :: "int \<Rightarrow> bool \<Rightarrow> int" where
  "utc0 t isUTC = 0"

definition now0 :: int where
  "now0 = 1762095600000"

definition votes0 :: "vote list" where
  "votes0 =
     [\<lparr>userName = ''alice'', debateId = ''debateA'', votes = 3, createdAt = 1761454800000\<rparr>,
      \<lparr>userName = ''alice'', debateId = ''debateA'', votes = 2, createdAt = 1761433200000\<rparr>,
      \<lparr>userName = ''alice'', debateId = ''debateB'', votes = 1, createdAt = 1762000000000\<rparr>]"

definition db_votes :: "string db" where
  "db_votes = \<lparr>debateCollection = [], joinedDebateCollection = [], argumentsCollection = votes0\<rparr>"

section \<open>Properties of the store primitives\<close>

lemma find_updateOne:
  "(\<And>d. q (u d) = q d) \<Longrightarrow> find q (updateOne q u ds) = map_option u (find q ds)"
  by (induction ds) auto

lemma find_snoc_None: "find q ds = None \<Longrightarrow> find q (ds @ [x]) = (if q x then Some x else None)"
  by (induction ds) (auto split: if_splits)

lemma find_updateOne_const:
  "q new \<Longrightarrow> (\<And>d. u d = new) \<Longrightarrow> find q ds = Some x \<Longrightarrow> find q (updateOne q u ds) = Some new"
  by (induction ds) (auto split: if_splits)

lemma find_upsertOne:
  "q new \<Longrightarrow> (\<And>d. u d = new) \<Longrightarrow> find q (upsertOne q u new ds) = Some new"
  by (auto simp: upsertOne_def find_snoc_None find_updateOne_const split: option.splits)

lemma find_None_filter: "find q ds = None \<Longrightarrow> filter q ds = []"
  by (induction ds) (auto split: if_splits)

lemma filter_updateOne_const:
  "q new \<Longrightarrow> (\<And>d. u d = new) \<Longrightarrow> find q ds = Some x \<Longrightarrow>
     filter q (updateOne q u ds) = new # tl (filter q ds)"
  by (induction ds) (auto split: if_splits)

lemma filter_upsertOne:
  assumes "q new" "\<And>d. u d = new" "length (filter q ds) \<le> 1"
  shows "filter q (upsertOne q u new ds) = [new]"
proof (cases "find q ds")
  case None
  then show ?thesis using assms(1) by (simp add: upsertOne_def find_None_filter)
next
  case (Some x)
  have "tl (filter q ds) = []" using assms(3) by (cases "filter q ds") auto
  then show ?thesis using Some assms(1,2) by (simp add: upsertOne_def filter_updateOne_const)
qed

section \<open>Properties of the join handler\<close>

lemma toLowerCase_Support: "toLowerCase ''Support'' = ''support''"
  by code_simp

lemma toLowerCase_Oppose: "toLowerCase ''Oppose'' = ''oppose''"
  by code_simp

text \<open>
  A join succeeds exactly on a non-empty name, one of the two sides, an identifier the
  constructor accepts and a stored debate; \<open>join_found\<close> is what it then answers and
  writes.
\<close>

lemma join_found:
  assumes "req_body.name body = Some n" "n \<noteq> []" "req_body.side body = Some s"
    "s = ''Support'' \<or> s = ''Oppose''" "ObjectId id' = Some oid"
    "findOne (\<lambda>d. doc_id d = oid) (debateCollection db) = Some debate"
  shows "join ObjectId now id' body db =
    (\<lparr>status = 200, payload = Message (''Successfully joined the debate as '' @ s)\<rparr>,
     db\<lparr>debateCollection :=
          updateOne (\<lambda>d. doc_id d = oid) (addToSetField (toLowerCase s) n)
            (updateOne (\<lambda>d. doc_id d = oid)
              (\<lambda>d. d\<lparr>support := pull n (support d), oppose := pull n (oppose d)\<rparr>)
              (debateCollection db)),
        joinedDebateCollection :=
          upsertOne (\<lambda>j. joinedDebate.debateId j = id' \<and> joinedDebate.name j = n)
            (\<lambda>j. j\<lparr>joinedDebate.debateId := id', joinedDebate.name := n, joinedDebate.side := s,
                joinedDebate.title := debate.title debate,
                joinedDebate.description := debate.description debate,
                joinedDebate.category := debate.category debate,
                joinedDebate.duration := debate.duration debate,
                joinedDebate.tags := debate.tags debate,
                joinedAt := now\<rparr>)
            \<lparr>joinedDebate.debateId = id', joinedDebate.name = n, joinedDebate.side = s,
              joinedDebate.title = debate.title debate,
              joinedDebate.description = debate.description debate,
              joinedDebate.category = debate.category debate,
              joinedDebate.duration = debate.duration debate,
              joinedDebate.tags = debate.tags debate,
              joinedAt = now\<rparr>
            (joinedDebateCollection db)\<rparr>)"
  using assms by (auto simp: join_def Let_def)

lemma join_200D:
  assumes "status (fst (join ObjectId now id' body db)) = 200"
  shows "\<exists>n s oid debate. req_body.name body = Some n \<and> n \<noteq> [] \<and> req_body.side body = Some s \<and>
     (s = ''Support'' \<or> s = ''Oppose'') \<and> ObjectId id' = Some oid \<and>
     findOne (\<lambda>d. doc_id d = oid) (debateCollection db) = Some debate"
  using assms
  by (auto simp: join_def Let_def split: option.splits if_splits)

lemma debate_after_join:
  assumes "req_body.name body = Some n" "n \<noteq> []" "req_body.side body = Some s"
    "s = ''Support'' \<or> s = ''Oppose''" "ObjectId id' = Some oid"
    "findOne (\<lambda>d. doc_id d = oid) (debateCollection db) = Some d"
  shows "findOne (\<lambda>d. doc_id d = oid) (debateCollection (snd (join ObjectId now id' body db))) =
     Some (addToSetField (toLowerCase s) n
       (d\<lparr>support := pull n (support d), oppose := pull n (oppose d)\<rparr>))"
proof -
  have 1: "\<And>d'. (doc_id (addToSetField (toLowerCase s) n d') = oid) = (doc_id d' = oid)"
    by (simp add: addToSetField_def)
  show ?thesis
    using assms(6) unfolding join_found[where ObjectId=ObjectId and id'=id', OF assms]
    by (simp add: findOne_def find_updateOne 1)
qed

lemma sides_after_join:
  assumes "req_body.name body = Some n" "n \<noteq> []" "req_body.side body = Some s"
    "s = ''Support'' \<or> s = ''Oppose''" "ObjectId id' = Some oid"
    "findOne (\<lambda>d. doc_id d = oid) (debateCollection db) = Some d"
  shows "\<exists>d'. findOne (\<lambda>d. doc_id d = oid) (debateCollection (snd (join ObjectId now id' body db))) = Some d'
     \<and> (n \<in> set (support d') \<longleftrightarrow> s = ''Support'') \<and> (n \<in> set (oppose d') \<longleftrightarrow> s = ''Oppose'')"
  unfolding debate_after_join[where ObjectId=ObjectId and id'=id', OF assms]
  using assms(4)
  by (auto simp: addToSetField_def toLowerCase_Support toLowerCase_Oppose pull_def addToSet_def)

lemma join_joined_once:
  assumes "join ObjectId now id' body db = (r, db')" and "status r = 200"
    and "req_body.name body = Some n"
    and "length (filter (\<lambda>j. joinedDebate.debateId j = id' \<and> joinedDebate.name j = n)
           (joinedDebateCollection db)) \<le> 1"
  shows "\<exists>j. filter (\<lambda>j. joinedDebate.debateId j = id' \<and> joinedDebate.name j = n)
           (joinedDebateCollection db') = [j] \<and> joinedAt j = now"
proof -
  from assms have "status (fst (join ObjectId now id' body db)) = 200" by simp
  from join_200D[where ObjectId=ObjectId and id'=id', OF this] assms(3) obtain s oid d where
    h: "req_body.name body = Some n" "n \<noteq> []" "req_body.side body = Some s"
      "s = ''Support'' \<or> s = ''Oppose''" "ObjectId id' = Some oid"
      "findOne (\<lambda>d. doc_id d = oid) (debateCollection db) = Some d"
    by auto
  show ?thesis
    using assms(1,4) unfolding join_found[where ObjectId=ObjectId and id'=id' and now=now, OF h]
    by (auto simp: filter_upsertOne)
qed

subsection \<open>The example store\<close>

lemma oid_d1: "ObjectId_hex ''64B7F0C2A1D3E4F5A6B7C8D9'' = Some ''64b7f0c2a1d3e4f5a6b7c8d9''"
  by code_simp

lemma oid_abc: "ObjectId_hex ''abc'' = None"
  by (simp add: ObjectId_hex_def)

lemma join_alice_support:
  "join ObjectId_hex 7 ''64B7F0C2A1D3E4F5A6B7C8D9''
      \<lparr>name = Some ''alice'', side = Some ''Support''\<rparr> db0 =
   (\<lparr>status = 200, payload = Message ''Successfully joined the debate as Support''\<rparr>,
    \<lparr>debateCollection =
      [\<lparr>doc_id = ''64b7f0c2a1d3e4f5a6b7c8d9'', title = JStr ''Tabs or spaces'',
        description = JStr ''Indentation'', tags = JArr [JStr ''style''],
        category = JStr ''tech'', duration = JNum 3600,
        support = [''bob'', ''alice''], oppose = [], createdAt = 0\<rparr>],
     joinedDebateCollection =
      [\<lparr>joinedDebate.debateId = ''64B7F0C2A1D3E4F5A6B7C8D9'', name = ''alice'',
        side = ''Support'', title = JStr ''Tabs or spaces'',
        description = JStr ''Indentation'', category = JStr ''tech'',
        duration = JNum 3600, tags = JArr [JStr ''style''], joinedAt = 7\<rparr>],
     argumentsCollection = []\<rparr>)"
  by (simp add: join_def oid_d1 db0_def findOne_def Let_def upsertOne_def
        addToSetField_def toLowerCase_Support pull_def addToSet_def)

subsection \<open>The key of the joined collection\<close>

lemma map_updateOne_key:
  "(\<And>d. q d \<Longrightarrow> key (u d) = key d) \<Longrightarrow> map key (updateOne q u ds) = map key ds"
  by (induction ds) auto

lemma find_None_key:
  "(\<And>d. q d = (key d = k)) \<Longrightarrow> find q ds = None \<Longrightarrow> k \<notin> set (map key ds)"
  by (induction ds) (auto split: if_splits)

lemma upsertOne_keys_unique:
  assumes "distinct (map key ds)" and "key new = k" and "\<And>d. key (u d) = k"
    and q: "\<And>d. q d = (key d = k)"
  shows "distinct (map key (upsertOne q u new ds))"
proof (cases "find q ds")
  case None
  with assms(1,2) find_None_key[of q key k, OF q None] show ?thesis
    by (simp add: upsertOne_def)
next
  case (Some d)
  have "map key (updateOne q u ds) = map key ds"
    by (rule map_updateOne_key) (simp add: assms(3) q)
  with assms(1) Some show ?thesis by (simp add: upsertOne_def)
qed

text \<open>
  No join, successful or not, gives the joined collection two records for one pair of
  identifier and name, and the empty collection has none: a collection that only this
  handler writes has at most one record for each pair.
\<close>

lemma join_keys_unique:
  assumes "joined_keys_unique (joinedDebateCollection db)"
  shows "joined_keys_unique (joinedDebateCollection (snd (join ObjectId now id' body db)))"
proof (cases "status (fst (join ObjectId now id' body db)) = 200")
  case True
  from join_200D[where ObjectId=ObjectId and id'=id', OF True] obtain n s oid d where
    h: "req_body.name body = Some n" "n \<noteq> []" "req_body.side body = Some s"
      "s = ''Support'' \<or> s = ''Oppose''" "ObjectId id' = Some oid"
      "findOne (\<lambda>d. doc_id d = oid) (debateCollection db) = Some d"
    by blast
  show ?thesis
    using assms
    unfolding join_found[where ObjectId=ObjectId and id'=id' and now=now, OF h]
      joined_keys_unique_def
    by (auto intro!: upsertOne_keys_unique[where k="(id', n)"])
next
  case False
  then have "snd (join ObjectId now id' body db) = db"
    by (auto simp: join_def Let_def split: option.splits if_splits)
  with assms show ?thesis by simp
qed

lemma keys_unique_at_most_one:
  "joined_keys_unique js \<Longrightarrow>
   length (filter (\<lambda>j. joinedDebate.debateId j = i \<and> joinedDebate.name j = n) js) \<le> 1"
  unfolding joined_keys_unique_def
proof (induction js)
  case Nil
  show ?case by simp
next
  case (Cons j js)
  show ?case
  proof (cases "joinedDebate.debateId j = i \<and> joinedDebate.name j = n")
    case True
    with Cons.prems have "filter (\<lambda>j. joinedDebate.debateId j = i \<and> joinedDebate.name j = n) js = []"
      by (auto simp: filter_empty_conv image_iff)
    with True show ?thesis by simp
  next
    case False
    from Cons.prems have "distinct (map (\<lambda>j. (joinedDebate.debateId j, joinedDebate.name j)) js)"
      by simp
    from Cons.IH[OF this] False show ?thesis by auto
  qed
qed

lemma keys_unique_empty: "joined_keys_unique []"
  by (simp add: joined_keys_unique_def)

text \<open>
  The key holds the identifier as the request spells it: the same debate under another
  spelling of its identifier (the case of a hexadecimal digit) gets a record of its own.
\<close>

lemma join_other_spelling:
  "map (\<lambda>j. (joinedDebate.debateId j, joinedDebate.name j))
     (joinedDebateCollection (snd (join ObjectId_hex 8 ''64b7f0c2a1d3e4f5a6b7c8d9''
        \<lparr>name = Some ''alice'', side = Some ''Support''\<rparr>
        (snd (join ObjectId_hex 7 ''64B7F0C2A1D3E4F5A6B7C8D9''
           \<lparr>name = Some ''alice'', side = Some ''Support''\<rparr> db0))))) =
   [(''64B7F0C2A1D3E4F5A6B7C8D9'', ''alice''), (''64b7f0c2a1d3e4f5a6b7c8d9'', ''alice'')]"
proof -
  have o: "ObjectId_hex ''64b7f0c2a1d3e4f5a6b7c8d9'' = Some ''64b7f0c2a1d3e4f5a6b7c8d9''"
    by code_simp
  show ?thesis
    unfolding join_alice_support
    by (simp add: join_def o findOne_def Let_def upsertOne_def)
qed

subsection \<open>Switching sides\<close>

text \<open>
  Claim C1. For a stored debate and a non-empty name, a join as \<^verbatim>\<open>Support\<close> followed at
  once by a join as \<^verbatim>\<open>Oppose\<close> (both succeed) leaves the name in the debate's
  \<open>oppose\<close> array and out of its \<open>support\<close> array.
\<close>

theorem join_switch_side:
  assumes "n \<noteq> []" and "ObjectId id' = Some oid"
    and "findOne (\<lambda>d. doc_id d = oid) (debateCollection db) = Some d0"
    and "join ObjectId t1 id' \<lparr>name = Some n, side = Some ''Support''\<rparr> db = (r1, db1)"
    and "join ObjectId t2 id' \<lparr>name = Some n, side = Some ''Oppose''\<rparr> db1 = (r2, db2)"
  shows "status r1 = 200 \<and> status r2 = 200 \<and>
     (\<exists>d. findOne (\<lambda>d. doc_id d = oid) (debateCollection db2) = Some d \<and>
        n \<in> set (oppose d) \<and> n \<notin> set (support d))"
proof -
  let ?b1 = "\<lparr>name = Some n, side = Some ''Support''\<rparr>"
  let ?b2 = "\<lparr>name = Some n, side = Some ''Oppose''\<rparr>"
  have r1: "status r1 = 200"
    using join_found[where ObjectId=ObjectId and id'=id' and body="?b1" and now=t1,
        OF _ assms(1) _ _ assms(2,3)] assms(4)
    by auto
  obtain d1 where d1: "findOne (\<lambda>d. doc_id d = oid) (debateCollection db1) = Some d1"
    using sides_after_join[where ObjectId=ObjectId and id'=id' and body="?b1" and now=t1,
        OF _ assms(1) _ _ assms(2,3)] assms(4)
    by auto
  have r2: "status r2 = 200"
    using join_found[where ObjectId=ObjectId and id'=id' and body="?b2" and now=t2,
        OF _ assms(1) _ _ assms(2) d1] assms(5)
    by auto
  have "\<exists>d. findOne (\<lambda>d. doc_id d = oid) (debateCollection db2) = Some d \<and>
        n \<in> set (oppose d) \<and> n \<notin> set (support d)"
    using sides_after_join[where ObjectId=ObjectId and id'=id' and body="?b2" and now=t2,
        OF _ assms(1) _ _ assms(2) d1] assms(5)
    by auto
  with r1 r2 show ?thesis by blast
qed

theorem join_switch_side_witness:
  "status (fst (join ObjectId_hex 7 ''64B7F0C2A1D3E4F5A6B7C8D9''
       \<lparr>name = Some ''alice'', side = Some ''Support''\<rparr> db0)) = 200 \<and>
   (\<exists>d. findOne (\<lambda>d. doc_id d = ''64b7f0c2a1d3e4f5a6b7c8d9'')
       (debateCollection (snd (join ObjectId_hex 8 ''64B7F0C2A1D3E4F5A6B7C8D9''
          \<lparr>name = Some ''alice'', side = Some ''Oppose''\<rparr>
          (snd (join ObjectId_hex 7 ''64B7F0C2A1D3E4F5A6B7C8D9''
             \<lparr>name = Some ''alice'', side = Some ''Support''\<rparr> db0))))) = Some d \<and>
     ''alice'' \<in> set (oppose d) \<and> ''alice'' \<notin> set (support d))"
proof -
  let ?i = "''64B7F0C2A1D3E4F5A6B7C8D9''"
  let ?b1 = "\<lparr>name = Some ''alice'', side = Some ''Support''\<rparr>"
  let ?b2 = "\<lparr>name = Some ''alice'', side = Some ''Oppose''\<rparr>"
  obtain r1 db1 where j1: "join ObjectId_hex 7 ?i ?b1 db0 = (r1, db1)"
    by (cases "join ObjectId_hex 7 ?i ?b1 db0")
  obtain r2 db2 where j2: "join ObjectId_hex 8 ?i ?b2 db1 = (r2, db2)"
    by (cases "join ObjectId_hex 8 ?i ?b2 db1")
  have f: "findOne (\<lambda>d. doc_id d = ''64b7f0c2a1d3e4f5a6b7c8d9'') (debateCollection db0) =
      Some (hd (debateCollection db0))"
    by (simp add: db0_def findOne_def)
  from join_switch_side[where ObjectId=ObjectId_hex and id'="?i", OF _ oid_d1 f j1 j2]
  show ?thesis using j1 j2 by simp
qed

text \<open>
  Claim C2. From any state of the debate, also one that has the name in both arrays,
  a successful join leaves the name in at most one of \<open>support\<close> and \<open>oppose\<close>: the
  \<^verbatim>\<open>$pull\<close> takes it out of both before the \<^verbatim>\<open>$addToSet\<close> puts it into one.
\<close>

theorem join_at_most_one_side:
  assumes "join ObjectId now id' body db = (r, db')" and "status r = 200"
  shows "\<exists>n oid d'. req_body.name body = Some n \<and> ObjectId id' = Some oid \<and>
     findOne (\<lambda>d. doc_id d = oid) (debateCollection db') = Some d' \<and>
     \<not> (n \<in> set (support d') \<and> n \<in> set (oppose d'))"
proof -
  from assms have "status (fst (join ObjectId now id' body db)) = 200" by simp
  from join_200D[where ObjectId=ObjectId and id'=id', OF this] obtain n s oid d where
    h: "req_body.name body = Some n" "n \<noteq> []" "req_body.side body = Some s"
      "s = ''Support'' \<or> s = ''Oppose''" "ObjectId id' = Some oid"
      "findOne (\<lambda>d. doc_id d = oid) (debateCollection db) = Some d"
    by blast
  from sides_after_join[where ObjectId=ObjectId and id'=id' and now=now, OF h] assms(1) h(1,5)
  show ?thesis by auto
qed

theorem join_at_most_one_side_witness:
  "status (fst (join ObjectId_hex 7 ''64B7F0C2A1D3E4F5A6B7C8D9''
       \<lparr>name = Some ''alice'', side = Some ''Support''\<rparr> db0)) = 200 \<and>
   (\<exists>d'. findOne (\<lambda>d. doc_id d = ''64b7f0c2a1d3e4f5a6b7c8d9'')
       (debateCollection (snd (join ObjectId_hex 7 ''64B7F0C2A1D3E4F5A6B7C8D9''
          \<lparr>name = Some ''alice'', side = Some ''Support''\<rparr> db0))) = Some d' \<and>
     \<not> (''alice'' \<in> set (support d') \<and> ''alice'' \<in> set (oppose d')))"
proof -
  obtain r db' where j: "join ObjectId_hex 7 ''64B7F0C2A1D3E4F5A6B7C8D9''
      \<lparr>name = Some ''alice'', side = Some ''Support''\<rparr> db0 = (r, db')"
    by (cases "join ObjectId_hex 7 ''64B7F0C2A1D3E4F5A6B7C8D9''
      \<lparr>name = Some ''alice'', side = Some ''Support''\<rparr> db0")
  have s: "status r = 200"
    using j by (auto simp: join_def oid_d1 db0_def findOne_def Let_def)
  from join_at_most_one_side[where ObjectId=ObjectId_hex and id'="''64B7F0C2A1D3E4F5A6B7C8D9''", OF j s]
  show ?thesis using j s by (auto simp: oid_d1)
qed

subsection \<open>The joined-debate record\<close>

text \<open>
  Claim C3. Successful joins repeated with the same identifier and body, from a
  collection that has at most one record for the pair of identifier and name, leave
  exactly one record for the pair, and its \<open>joinedAt\<close> is the time of the last join.
\<close>

theorem rejoin_one_record:
  assumes "rejoin ObjectId id' body ts db = (rs, db')" and "ts \<noteq> []"
    and "list_all (\<lambda>r. status r = 200) rs"
    and "req_body.name body = Some n"
    and "length (filter (\<lambda>j. joinedDebate.debateId j = id' \<and> joinedDebate.name j = n)
           (joinedDebateCollection db)) \<le> 1"
  shows "\<exists>j. filter (\<lambda>j. joinedDebate.debateId j = id' \<and> joinedDebate.name j = n)
           (joinedDebateCollection db') = [j] \<and> joinedAt j = last ts"
  using assms
proof (induction ts arbitrary: db rs)
  case Nil
  then show ?case by simp
next
  case (Cons t ts)
  obtain r db1 where j: "join ObjectId t id' body db = (r, db1)"
    by (cases "join ObjectId t id' body db")
  obtain rs1 where rj: "rejoin ObjectId id' body ts db1 = (rs1, db')" and rs: "rs = r # rs1"
    using Cons.prems(1) j by (auto split: prod.splits)
  have ok: "status r = 200" and oks: "list_all (\<lambda>r. status r = 200) rs1"
    using Cons.prems(3) rs by auto
  from join_joined_once[OF j ok Cons.prems(4,5)] obtain j1 where
    j1: "filter (\<lambda>j. joinedDebate.debateId j = id' \<and> joinedDebate.name j = n)
           (joinedDebateCollection db1) = [j1]" "joinedAt j1 = t"
    by blast
  show ?case
  proof (cases "ts = []")
    case True
    then show ?thesis using rj j1 by simp
  next
    case False
    have "length (filter (\<lambda>j. joinedDebate.debateId j = id' \<and> joinedDebate.name j = n)
           (joinedDebateCollection db1)) \<le> 1"
      using j1 by simp
    from Cons.IH[OF rj False oks Cons.prems(4) this] False show ?thesis by simp
  qed
qed

theorem rejoin_one_record_witness:
  "(\<exists>j. filter (\<lambda>j. joinedDebate.debateId j = ''64B7F0C2A1D3E4F5A6B7C8D9'' \<and> joinedDebate.name j = ''alice'')
      (joinedDebateCollection (snd (rejoin ObjectId_hex ''64B7F0C2A1D3E4F5A6B7C8D9''
          \<lparr>name = Some ''alice'', side = Some ''Support''\<rparr> [5, 9] db0))) = [j] \<and> joinedAt j = 9)"
proof -
  let ?b = "\<lparr>name = Some ''alice'', side = Some ''Support''\<rparr>"
  let ?i = "''64B7F0C2A1D3E4F5A6B7C8D9''"
  obtain rs db' where j: "rejoin ObjectId_hex ?i ?b [5, 9] db0 = (rs, db')"
    by (cases "rejoin ObjectId_hex ?i ?b [5, 9] db0")
  have s: "list_all (\<lambda>r. status r = 200) rs"
    using j by (auto simp: join_def oid_d1 db0_def findOne_def Let_def upsertOne_def
        addToSetField_def toLowerCase_Support pull_def addToSet_def)
  have e: "length (filter (\<lambda>j. joinedDebate.debateId j = ?i \<and> joinedDebate.name j = ''alice'')
           (joinedDebateCollection db0)) \<le> 1"
    by (simp add: db0_def)
  from rejoin_one_record[where ObjectId=ObjectId_hex and id'="?i" and body="?b", OF j _ s _ e]
  show ?thesis using j by simp
qed

text \<open>
  Claim C10. After a successful join the record of the pair holds the title,
  description, category, duration and tags of the debate as \<open>findOne\<close> read it before
  the writes, and its \<open>side\<close> is the side string of the request, \<^verbatim>\<open>Support\<close> or
  \<^verbatim>\<open>Oppose\<close>, not the lower-cased field name.
\<close>

theorem join_snapshot:
  assumes "join ObjectId now id' body db = (r, db')" and "status r = 200"
  shows "\<exists>n s oid d j.
     req_body.name body = Some n \<and> req_body.side body = Some s \<and> ObjectId id' = Some oid \<and>
     findOne (\<lambda>d. doc_id d = oid) (debateCollection db) = Some d \<and>
     findOne (\<lambda>j. joinedDebate.debateId j = id' \<and> joinedDebate.name j = n)
       (joinedDebateCollection db') = Some j \<and>
     joinedDebate.title j = debate.title d \<and>
     joinedDebate.description j = debate.description d \<and>
     joinedDebate.category j = debate.category d \<and>
     joinedDebate.duration j = debate.duration d \<and>
     joinedDebate.tags j = debate.tags d \<and>
     joinedDebate.side j = s \<and> (s = ''Support'' \<or> s = ''Oppose'') \<and>
     joinedDebate.side j \<noteq> toLowerCase s"
proof -
  from assms have "status (fst (join ObjectId now id' body db)) = 200" by simp
  from join_200D[where ObjectId=ObjectId and id'=id', OF this] obtain n s oid d where
    h: "req_body.name body = Some n" "n \<noteq> []" "req_body.side body = Some s"
      "s = ''Support'' \<or> s = ''Oppose''" "ObjectId id' = Some oid"
      "findOne (\<lambda>d. doc_id d = oid) (debateCollection db) = Some d"
    by blast
  let ?j = "\<lparr>joinedDebate.debateId = id', joinedDebate.name = n, joinedDebate.side = s,
              joinedDebate.title = debate.title d,
              joinedDebate.description = debate.description d,
              joinedDebate.category = debate.category d,
              joinedDebate.duration = debate.duration d,
              joinedDebate.tags = debate.tags d,
              joinedAt = now\<rparr>"
  have "findOne (\<lambda>j. joinedDebate.debateId j = id' \<and> joinedDebate.name j = n)
       (joinedDebateCollection db') = Some ?j"
    using assms(1) unfolding join_found[where ObjectId=ObjectId and id'=id' and now=now, OF h]
    by (auto simp: findOne_def intro!: find_upsertOne)
  moreover have "s \<noteq> toLowerCase s"
    using h(4) by (auto simp: toLowerCase_Support toLowerCase_Oppose)
  ultimately show ?thesis using h by auto
qed

theorem join_snapshot_witness:
  "\<exists>j. findOne (\<lambda>j. joinedDebate.debateId j = ''64B7F0C2A1D3E4F5A6B7C8D9'' \<and>
          joinedDebate.name j = ''alice'')
       (joinedDebateCollection (snd (join ObjectId_hex 7 ''64B7F0C2A1D3E4F5A6B7C8D9''
          \<lparr>name = Some ''alice'', side = Some ''Support''\<rparr> db0))) = Some j \<and>
     joinedDebate.title j = JStr ''Tabs or spaces'' \<and>
     joinedDebate.description j = JStr ''Indentation'' \<and>
     joinedDebate.category j = JStr ''tech'' \<and>
     joinedDebate.duration j = JNum 3600 \<and>
     joinedDebate.tags j = JArr [JStr ''style''] \<and>
     joinedDebate.side j = ''Support''"
proof -
  let ?i = "''64B7F0C2A1D3E4F5A6B7C8D9''"
  let ?b = "\<lparr>name = Some ''alice'', side = Some ''Support''\<rparr>"
  obtain r db' where j: "join ObjectId_hex 7 ?i ?b db0 = (r, db')"
    by (cases "join ObjectId_hex 7 ?i ?b db0")
  have s: "status r = 200"
    using j by (auto simp: join_alice_support)
  have f: "findOne (\<lambda>d. doc_id d = ''64b7f0c2a1d3e4f5a6b7c8d9'') (debateCollection db0) =
      Some (hd (debateCollection db0))"
    by (simp add: db0_def findOne_def)
  from join_snapshot[where ObjectId=ObjectId_hex and id'="?i", OF j s]
  show ?thesis using j f by (auto simp: oid_d1 db0_def)
qed

subsection \<open>Failures\<close>

text \<open>
  A request whose body was not parsed gets no response from the handler, and nothing is
  written.
\<close>

lemma join_request_unparsed: "join_request ObjectId now id' None db = (None, db)"
  by (simp add: join_request_def)

lemma join_request_parsed:
  "join_request ObjectId now id' (Some body) db =
     (Some (fst (join ObjectId now id' body db)), snd (join ObjectId now id' body db))"
  by (simp add: join_request_def split: prod.splits)

text \<open>
  Claim C4. A join request with a parsed body whose name is absent or empty, or whose
  side is absent or any string other than \<^verbatim>\<open>Support\<close> and \<^verbatim>\<open>Oppose\<close> (the lower-case
  \<^verbatim>\<open>support\<close> too), answers 400 and leaves the store as it was.
\<close>

theorem join_invalid_argument:
  assumes "req_body.name body = None \<or> req_body.name body = Some [] \<or>
     req_body.side body \<notin> {Some ''Support'', Some ''Oppose''}"
  shows "join_request ObjectId now id' (Some body) db =
     (Some \<lparr>status = 400,
        payload = Error ''Name and valid side are required (Support or Oppose)''\<rparr>, db)"
  using assms by (auto simp: join_request_def join_def Let_def split: option.splits)

theorem join_invalid_argument_witness:
  "join_request ObjectId_hex 7 ''64B7F0C2A1D3E4F5A6B7C8D9''
      (Some \<lparr>name = Some ''alice'', side = Some ''support''\<rparr>) db0 =
     (Some \<lparr>status = 400,
        payload = Error ''Name and valid side are required (Support or Oppose)''\<rparr>, db0) \<and>
   join_request ObjectId_hex 7 ''64B7F0C2A1D3E4F5A6B7C8D9''
      (Some \<lparr>name = Some [], side = Some ''Support''\<rparr>) db0 =
     (Some \<lparr>status = 400,
        payload = Error ''Name and valid side are required (Support or Oppose)''\<rparr>, db0) \<and>
   join_request ObjectId_hex 7 ''64B7F0C2A1D3E4F5A6B7C8D9''
      (Some \<lparr>name = None, side = None\<rparr>) db0 =
     (Some \<lparr>status = 400,
        payload = Error ''Name and valid side are required (Support or Oppose)''\<rparr>, db0)"
  using join_invalid_argument[where ObjectId=ObjectId_hex and now=7
      and id'="''64B7F0C2A1D3E4F5A6B7C8D9''"
      and body="\<lparr>name = Some ''alice'', side = Some ''support''\<rparr>" and db=db0]
    join_invalid_argument[where ObjectId=ObjectId_hex and now=7
      and id'="''64B7F0C2A1D3E4F5A6B7C8D9''"
      and body="\<lparr>name = Some [], side = Some ''Support''\<rparr>" and db=db0]
    join_invalid_argument[where ObjectId=ObjectId_hex and now=7
      and id'="''64B7F0C2A1D3E4F5A6B7C8D9''"
      and body="\<lparr>name = None, side = None\<rparr>" and db=db0]
  by simp

text \<open>
  Claim C5 says that every identifier that matches no stored debate gives 404. It does
  not hold for an identifier the ObjectId constructor rejects: the constructor throws
  inside the \<^verbatim>\<open>try\<close>, and the handler answers 500.
\<close>

theorem join_not_found_counterexample:
  "find (\<lambda>d. Some (doc_id d) = ObjectId_hex ''abc'') (debateCollection db0) = None \<and>
   join ObjectId_hex 7 ''abc'' \<lparr>name = Some ''alice'', side = Some ''Support''\<rparr> db0 =
     (\<lparr>status = 500, payload = Error ''Internal server error''\<rparr>, db0) \<and>
   status (fst (join ObjectId_hex 7 ''abc''
       \<lparr>name = Some ''alice'', side = Some ''Support''\<rparr> db0)) \<noteq> 404"
  by (simp add: join_def oid_abc db0_def)

text \<open>
  Claim C5, amended. With a valid name and side, an identifier that the constructor
  accepts and that matches no stored debate gives 404, and an identifier that the
  constructor rejects gives 500; the store is as it was in both cases.
\<close>

theorem join_not_found:
  assumes "req_body.name body = Some n" and "n \<noteq> []"
    and "req_body.side body = Some s" and "s = ''Support'' \<or> s = ''Oppose''"
  shows "(ObjectId id' = None \<longrightarrow>
            join ObjectId now id' body db =
              (\<lparr>status = 500, payload = Error ''Internal server error''\<rparr>, db)) \<and>
         (\<forall>oid. ObjectId id' = Some oid \<and>
              findOne (\<lambda>d. doc_id d = oid) (debateCollection db) = None \<longrightarrow>
            join ObjectId now id' body db =
              (\<lparr>status = 404, payload = Error ''Debate not found''\<rparr>, db))"
  using assms by (auto simp: join_def Let_def)

theorem join_not_found_witness:
  "join ObjectId_hex 7 ''abc'' \<lparr>name = Some ''alice'', side = Some ''Support''\<rparr> db0 =
     (\<lparr>status = 500, payload = Error ''Internal server error''\<rparr>, db0) \<and>
   join ObjectId_hex 7 ''00000000000000000000000A''
       \<lparr>name = Some ''alice'', side = Some ''Support''\<rparr> db0 =
     (\<lparr>status = 404, payload = Error ''Debate not found''\<rparr>, db0)"
proof -
  have o: "ObjectId_hex ''00000000000000000000000A'' = Some ''00000000000000000000000a''"
    by code_simp
  have f: "findOne (\<lambda>d. doc_id d = ''00000000000000000000000a'') (debateCollection db0) = None"
    by (simp add: db0_def findOne_def)
  from join_not_found[where ObjectId=ObjectId_hex and now=7 and id'="''abc''" and db=db0
      and body="\<lparr>name = Some ''alice'', side = Some ''Support''\<rparr>" and n="''alice''"
      and s="''Support''"]
    join_not_found[where ObjectId=ObjectId_hex and now=7 and id'="''00000000000000000000000A''"
      and db=db0 and body="\<lparr>name = Some ''alice'', side = Some ''Support''\<rparr>"
      and n="''alice''" and s="''Support''"]
  show ?thesis using o f oid_abc by simp
qed

text \<open>
  Claim C9. A join that answers 400 or 404 has written nothing: the store is as it was
  before the call.
\<close>

theorem join_failure_writes_nothing:
  assumes "status (fst (join ObjectId now id' body db)) = 400 \<or>
           status (fst (join ObjectId now id' body db)) = 404"
  shows "snd (join ObjectId now id' body db) = db"
  using assms by (auto simp: join_def Let_def split: option.splits if_splits)

theorem join_failure_writes_nothing_witness:
  "status (fst (join ObjectId_hex 7 ''00000000000000000000000A''
       \<lparr>name = Some ''alice'', side = Some ''Support''\<rparr> db0)) = 404 \<and>
   snd (join ObjectId_hex 7 ''00000000000000000000000A''
       \<lparr>name = Some ''alice'', side = Some ''Support''\<rparr> db0) = db0"
proof -
  have o: "ObjectId_hex ''00000000000000000000000A'' = Some ''00000000000000000000000a''"
    by code_simp
  have s: "status (fst (join ObjectId_hex 7 ''00000000000000000000000A''
       \<lparr>name = Some ''alice'', side = Some ''Support''\<rparr> db0)) = 404"
    by (simp add: join_def o db0_def findOne_def)
  from join_failure_writes_nothing[where ObjectId=ObjectId_hex and now=7
      and id'="''00000000000000000000000A''" and db=db0
      and body="\<lparr>name = Some ''alice'', side = Some ''Support''\<rparr>"] s
  show ?thesis by simp
qed

section \<open>Properties of the dates\<close>

lemma DaysInYear_range: "365 \<le> DaysInYear y \<and> DaysInYear y \<le> 366"
  by (simp add: DaysInYear_def)

lemma DayFromYear_1970: "DayFromYear 1970 = 0"
  by (simp add: DayFromYear_def)

lemma DayFromYear_less: "a < b \<Longrightarrow> DayFromYear a < DayFromYear b"
proof (induction b rule: int_gr_induct)
  case base
  show ?case using DaysInYear_range[of a] by (simp add: DayFromYear_Suc)
next
  case (step i)
  then show ?case using DaysInYear_range[of i] by (simp add: DayFromYear_Suc)
qed

lemma DayFromYear_after: "1970 \<le> y \<Longrightarrow> DayFromYear y \<le> 366 * (y - 1970)"
proof (induction y rule: int_ge_induct)
  case base
  show ?case by (simp add: DayFromYear_1970)
next
  case (step i)
  then show ?case using DaysInYear_range[of i] by (simp add: DayFromYear_Suc)
qed

lemma DayFromYear_before: "y \<le> 1970 \<Longrightarrow> DayFromYear y \<le> 365 * (y - 1970)"
proof (induction y rule: int_le_induct)
  case base
  show ?case by (simp add: DayFromYear_1970)
next
  case (step i)
  have "DayFromYear i = DayFromYear (i - 1) + DaysInYear (i - 1)"
    using DayFromYear_Suc[of "i - 1"] by simp
  with step show ?case using DaysInYear_range[of "i - 1"] by simp
qed

lemma year_up_bounds:
  "DayFromYear y \<le> d \<Longrightarrow>
     DayFromYear (year_up y d) \<le> d \<and> d < DayFromYear (year_up y d + 1)"
proof (induction y d rule: year_up.induct)
  case (1 y d)
  show ?case
  proof (cases "DayFromYear (y + 1) \<le> d")
    case True
    with "1.IH" show ?thesis by (subst (1 2) year_up.simps) simp
  next
    case False
    with "1.prems" show ?thesis by (subst (1 2) year_up.simps) simp
  qed
qed

lemma year_start_le: "DayFromYear (1970 + (if 0 \<le> d then d div 366 else d div 365)) \<le> d"
proof (cases "0 \<le> d")
  case True
  then have "0 \<le> d div 366" by simp
  then have "DayFromYear (1970 + d div 366) \<le> 366 * (d div 366)"
    using DayFromYear_after[of "1970 + d div 366"] by simp
  also have "\<dots> \<le> d"
    using mult_div_mod_eq[of 366 d] pos_mod_sign[of 366 d] by linarith
  finally show ?thesis using True by simp
next
  case False
  then have "d div 365 < 0" by (simp add: neg_imp_zdiv_neg_iff)
  then have "DayFromYear (1970 + d div 365) \<le> 365 * (d div 365)"
    using DayFromYear_before[of "1970 + d div 365"] by simp
  also have "\<dots> \<le> d"
    using mult_div_mod_eq[of 365 d] pos_mod_sign[of 365 d] by linarith
  finally show ?thesis using False by simp
qed

text \<open>
  \<open>YearFromTime\<close> meets its specification: the year of a time value is the largest
  year that starts at or before its day.
\<close>

lemma YearFromTime_bounds:
  "DayFromYear (YearFromTime t) \<le> Day t \<and> Day t < DayFromYear (YearFromTime t + 1)"
  unfolding YearFromTime_def Let_def by (rule year_up_bounds) (rule year_start_le)

lemma YearFromTime_unique:
  assumes "DayFromYear y \<le> Day t" and "Day t < DayFromYear (y + 1)"
  shows "YearFromTime t = y"
proof (rule ccontr)
  assume "YearFromTime t \<noteq> y"
  then consider "YearFromTime t + 1 \<le> y" | "y + 1 \<le> YearFromTime t" by linarith
  then show False
  proof cases
    case 1
    then have "DayFromYear (YearFromTime t + 1) \<le> DayFromYear y"
      using DayFromYear_less[of "YearFromTime t + 1" y] by (cases "YearFromTime t + 1 = y") auto
    with YearFromTime_bounds[of t] assms show False by linarith
  next
    case 2
    then have "DayFromYear (y + 1) \<le> DayFromYear (YearFromTime t)"
      using DayFromYear_less[of "y + 1" "YearFromTime t"] by (cases "y + 1 = YearFromTime t") auto
    with YearFromTime_bounds[of t] assms show False by linarith
  qed
qed

lemma DayWithinYear_range:
  "0 \<le> DayWithinYear t \<and> DayWithinYear t < DaysInYear (YearFromTime t)"
  using YearFromTime_bounds[of t] by (simp add: DayWithinYear_def DayFromYear_Suc)

lemma MonthFromTime_range: "0 \<le> MonthFromTime t \<and> MonthFromTime t \<le> 11"
  by (simp add: MonthFromTime_def Let_def)

lemma DateFromTime_range: "1 \<le> DateFromTime t \<and> DateFromTime t \<le> 31"
proof -
  define d where "d = DayWithinYear t"
  define leap where "leap = InLeapYear t"
  have l: "leap = 0 \<or> leap = 1" by (simp add: leap_def InLeapYear_def)
  have r: "0 \<le> d" "d < 365 + leap"
    using DayWithinYear_range[of t] DaysInYear_range[of "YearFromTime t"]
    by (auto simp: d_def leap_def InLeapYear_def)
  consider "d < 31" | "31 \<le> d \<and> d < 59 + leap" | "59 + leap \<le> d \<and> d < 90 + leap"
    | "90 + leap \<le> d \<and> d < 120 + leap" | "120 + leap \<le> d \<and> d < 151 + leap"
    | "151 + leap \<le> d \<and> d < 181 + leap" | "181 + leap \<le> d \<and> d < 212 + leap"
    | "212 + leap \<le> d \<and> d < 243 + leap" | "243 + leap \<le> d \<and> d < 273 + leap"
    | "273 + leap \<le> d \<and> d < 304 + leap" | "304 + leap \<le> d \<and> d < 334 + leap"
    | "334 + leap \<le> d"
    by linarith
  then have "1 \<le> d - month_start leap
        (if d < 31 then 0 else if d < 59 + leap then 1 else if d < 90 + leap then 2
         else if d < 120 + leap then 3 else if d < 151 + leap then 4
         else if d < 181 + leap then 5 else if d < 212 + leap then 6
         else if d < 243 + leap then 7 else if d < 273 + leap then 8
         else if d < 304 + leap then 9 else if d < 334 + leap then 10 else 11) + 1 \<and>
      d - month_start leap
        (if d < 31 then 0 else if d < 59 + leap then 1 else if d < 90 + leap then 2
         else if d < 120 + leap then 3 else if d < 151 + leap then 4
         else if d < 181 + leap then 5 else if d < 212 + leap then 6
         else if d < 243 + leap then 7 else if d < 273 + leap then 8
         else if d < 304 + leap then 9 else if d < 334 + leap then 10 else 11) + 1 \<le> 31"
    using l r by cases (auto simp: month_start_def)
  then show ?thesis
    unfolding DateFromTime_def MonthFromTime_def Let_def d_def leap_def .
qed

text \<open>
  The date read from a time value and moved by \<open>k\<close> days makes the day number moved by
  \<open>k\<close>, across the ends of months and years.
\<close>

lemma MakeDay_getters:
  "MakeDay (YearFromTime t) (MonthFromTime t) (DateFromTime t + k) = Day t + k"
proof -
  have m: "MonthFromTime t div 12 = 0" "MonthFromTime t mod 12 = MonthFromTime t"
    using MonthFromTime_range[of t] by simp_all
  show ?thesis
    unfolding MakeDay_def Let_def m
    by (simp add: DateFromTime_def InLeapYear_def DayWithinYear_def)
qed

lemma Day_mult: "Day (d * msPerDay) = d"
  by (simp add: Day_def msPerDay_def)

text \<open>
  \<open>MakeDay\<close> meets its specification: the day it makes for the first of a month is a day
  of that year and month, with date 1.
\<close>

lemma MakeDay_first:
  assumes "0 \<le> m" and "m \<le> 11"
  shows "YearFromTime (MakeDate (MakeDay y m 1) 0) = y \<and>
         MonthFromTime (MakeDate (MakeDay y m 1) 0) = m \<and>
         DateFromTime (MakeDate (MakeDay y m 1) 0) = 1"
proof -
  let ?leap = "if DaysInYear y = 366 then 1 else 0 :: int"
  let ?t = "MakeDate (MakeDay y m 1) 0"
  have md: "m div 12 = 0" "m mod 12 = m" using assms by simp_all
  have d: "Day ?t = DayFromYear y + month_start ?leap m"
    unfolding MakeDate_def MakeDay_def Let_def md by (simp add: Day_mult)
  have r: "0 \<le> month_start ?leap m" "month_start ?leap m < DaysInYear y"
    using DaysInYear_range[of y] by (auto simp: month_start_def)
  have y: "YearFromTime ?t = y"
    by (rule YearFromTime_unique) (use d r in \<open>simp_all add: DayFromYear_Suc\<close>)
  have w: "DayWithinYear ?t = month_start ?leap m"
    by (simp add: DayWithinYear_def y d)
  have l: "InLeapYear ?t = ?leap" by (simp add: InLeapYear_def y)
  have "m = 0 \<or> m = 1 \<or> m = 2 \<or> m = 3 \<or> m = 4 \<or> m = 5 \<or> m = 6 \<or> m = 7 \<or> m = 8 \<or>
      m = 9 \<or> m = 10 \<or> m = 11"
    using assms by presburger
  then have mo: "MonthFromTime ?t = m"
    unfolding MonthFromTime_def Let_def w l
    by (elim disjE) (simp_all add: month_start_def)
  have "DateFromTime ?t = 1"
    unfolding DateFromTime_def w l mo by simp
  with y mo show ?thesis by simp
qed

section \<open>Properties of the leaderboard handler\<close>

lemma sum_list_absent:
  fixes c :: int
  shows "a \<notin> set ks \<Longrightarrow> sum_list (map (\<lambda>k. if a = k then c else 0) ks) = 0"
  by (induction ks) auto

lemma sum_list_delta:
  fixes c :: int
  assumes "distinct ks" "a \<in> set ks"
  shows "sum_list (map (\<lambda>k. if a = k then c else 0) ks) = c"
  using assms by (induction ks) (auto simp: sum_list_absent)

lemma sum_list_const0: "sum_list (map (\<lambda>k. 0::int) ks) = 0"
  by (induction ks) auto

text \<open>
  The sum over a list is the sum of the sums of its groups.
\<close>

lemma sum_list_partition:
  fixes f :: "'a \<Rightarrow> int"
  assumes "distinct ks" "key ` set xs \<subseteq> set ks"
  shows "sum_list (map (\<lambda>k. sum_list (map f (filter (\<lambda>x. key x = k) xs))) ks) =
         sum_list (map f xs)"
  using assms(2)
proof (induction xs)
  case Nil
  show ?case by (simp add: sum_list_const0)
next
  case (Cons x xs)
  have "sum_list (map (\<lambda>k. sum_list (map f (filter (\<lambda>x. key x = k) (x # xs)))) ks) =
        sum_list (map (\<lambda>k. (if key x = k then f x else 0) +
            sum_list (map f (filter (\<lambda>x. key x = k) xs))) ks)"
    by (rule arg_cong[where f=sum_list], rule map_cong) auto
  also have "\<dots> = sum_list (map (\<lambda>k. if key x = k then f x else 0) ks) +
        sum_list (map (\<lambda>k. sum_list (map f (filter (\<lambda>x. key x = k) xs))) ks)"
    by (simp add: sum_list_addf)
  also have "\<dots> = f x + sum_list (map f xs)"
    using Cons assms(1) by (simp add: sum_list_delta)
  finally show ?case by simp
qed

lemma rows_of_user:
  "filter (\<lambda>r. fst (row_id r) = u) (group_per_debate recs) =
   map (\<lambda>k. \<lparr>row_id = k,
                totalVotesPerDebate =
                  sum_list (map votes (filter (\<lambda>r. (userName r, vote.debateId r) = k) recs))\<rparr>)
     (filter (\<lambda>k. fst k = u) (remdups (map (\<lambda>r. (userName r, vote.debateId r)) recs)))"
  by (simp add: group_per_debate_def filter_map comp_def)

lemma keys_of_user:
  "filter (\<lambda>k. fst k = u) (remdups (map (\<lambda>r. (userName r, vote.debateId r)) recs)) =
   remdups (map (\<lambda>r. (userName r, vote.debateId r)) (filter (\<lambda>r. userName r = u) recs))"
  by (simp add: remdups_filter [symmetric] filter_map comp_def)

text \<open>
  The two stages together: a user's total is the sum of the votes of the user's
  documents, and the number of the user's rows is the number of distinct debates among
  them.
\<close>

lemma total_of_user:
  "sum_list (map totalVotesPerDebate (filter (\<lambda>r. fst (row_id r) = u) (group_per_debate recs))) =
   sum_list (map votes (filter (\<lambda>r. userName r = u) recs))"
proof -
  let ?key = "\<lambda>r. (userName r, vote.debateId r)"
  let ?ru = "filter (\<lambda>r. userName r = u) recs"
  let ?ks = "remdups (map ?key ?ru)"
  have "sum_list (map totalVotesPerDebate (filter (\<lambda>r. fst (row_id r) = u) (group_per_debate recs))) =
      sum_list (map (\<lambda>k. sum_list (map votes (filter (\<lambda>r. ?key r = k) recs))) ?ks)"
    by (simp add: rows_of_user keys_of_user comp_def)
  also have "\<dots> = sum_list (map (\<lambda>k. sum_list (map votes (filter (\<lambda>r. ?key r = k) ?ru))) ?ks)"
  proof (rule arg_cong[where f=sum_list], rule map_cong[OF refl])
    fix k assume "k \<in> set ?ks"
    then have "fst k = u" by auto
    then have "filter (\<lambda>r. ?key r = k) ?ru = filter (\<lambda>r. ?key r = k) recs"
      by (auto intro: filter_cong)
    then show "sum_list (map votes (filter (\<lambda>r. ?key r = k) recs)) =
        sum_list (map votes (filter (\<lambda>r. ?key r = k) ?ru))"
      by simp
  qed
  also have "\<dots> = sum_list (map votes ?ru)"
    by (rule sum_list_partition) auto
  finally show ?thesis .
qed

lemma count_of_user:
  "length (filter (\<lambda>r. fst (row_id r) = u) (group_per_debate recs)) =
   card (vote.debateId ` set (filter (\<lambda>r. userName r = u) recs))"
proof -
  let ?ru = "filter (\<lambda>r. userName r = u) recs"
  have "length (filter (\<lambda>r. fst (row_id r) = u) (group_per_debate recs)) =
      card (set (map (\<lambda>r. (userName r, vote.debateId r)) ?ru))"
    by (simp only: rows_of_user keys_of_user length_map length_remdups_card_conv)
  also have "set (map (\<lambda>r. (userName r, vote.debateId r)) ?ru) =
      Pair u ` vote.debateId ` set ?ru"
    by (auto simp: image_iff)
  also have "card (Pair u ` vote.debateId ` set ?ru) = card (vote.debateId ` set ?ru)"
    by (rule card_image) (simp add: inj_on_def)
  finally show ?thesis .
qed

lemma users_of_rows:
  "set (map (\<lambda>r. fst (row_id r)) (group_per_debate recs)) = userName ` set recs"
  by (auto simp: group_per_debate_def image_iff)

lemma group_per_user_eq:
  "group_per_user (group_per_debate recs) =
   map (\<lambda>u. \<lparr>entry_id = u,
         totalVotes = sum_list (map votes (filter (\<lambda>r. userName r = u) recs)),
         debatesParticipated =
           int (card (vote.debateId ` set (filter (\<lambda>r. userName r = u) recs)))\<rparr>)
     (remdups (map (\<lambda>r. fst (row_id r)) (group_per_debate recs)))"
  unfolding group_per_user_def by (simp only: total_of_user count_of_user)

lemma aggregate_all:
  "distinct (map entry_id (aggregate None recs)) \<and>
   set (aggregate None recs) =
     (\<lambda>u. \<lparr>entry_id = u,
         totalVotes = sum_list (map votes (filter (\<lambda>r. userName r = u) recs)),
         debatesParticipated =
           int (card (vote.debateId ` set (filter (\<lambda>r. userName r = u) recs)))\<rparr>) `
     userName ` set recs"
proof -
  let ?e = "\<lambda>u. \<lparr>entry_id = u,
         totalVotes = sum_list (map votes (filter (\<lambda>r. userName r = u) recs)),
         debatesParticipated =
           int (card (vote.debateId ` set (filter (\<lambda>r. userName r = u) recs)))\<rparr>"
  let ?us = "remdups (map (\<lambda>r. fst (row_id r)) (group_per_debate recs))"
  have a: "aggregate None recs = sort_key (\<lambda>e. - totalVotes e) (map ?e ?us)"
    by (simp only: aggregate_def match_stage_def option.case sort_stage_def group_per_user_eq)
  have "inj_on ?e (set ?us)" by (rule inj_onI) simp
  then have d: "distinct (map ?e ?us)" by (simp add: distinct_map)
  have i: "inj_on entry_id (set (map ?e ?us))" by (rule inj_onI) auto
  have "distinct (map entry_id (aggregate None recs))"
    unfolding a using d i by (simp add: distinct_map)
  moreover have "set (aggregate None recs) = ?e ` userName ` set recs"
    unfolding a using users_of_rows[of recs] by simp
  ultimately show ?thesis by blast
qed

lemma leaderboard_unfiltered:
  "startDate LocalTZA now (filter_of q) = None \<Longrightarrow>
   leaderboard LocalTZA now q db =
     \<lparr>status = 200, payload = Leaderboard (aggregate None (argumentsCollection db))\<rparr>"
  by (simp add: leaderboard_def Let_def)

lemma aggregate_Some:
  "aggregate (Some s) recs = aggregate None (filter (\<lambda>r. s \<le> vote.createdAt r) recs)"
  by (simp add: aggregate_def match_stage_def)

lemma startDate_weekly:
  assumes "getFullYear LocalTZA now < 0 \<or> 99 < getFullYear LocalTZA now"
  shows "startDate LocalTZA now ''weekly'' =
     Some (UTC LocalTZA ((Day (LocalTime LocalTZA now) - 7) * msPerDay))"
proof -
  have "MakeDay (getFullYear LocalTZA now) (getMonth LocalTZA now) (getDate LocalTZA now - 7) =
      Day (LocalTime LocalTZA now) - 7"
    using MakeDay_getters[of "LocalTime LocalTZA now" "- 7"]
    by (simp add: getFullYear_def getMonth_def getDate_def)
  with assms show ?thesis
    by (auto simp: startDate_def Date3_def Let_def MakeDate_def)
qed

lemma singleton_list: "distinct xs \<Longrightarrow> set xs = {x} \<Longrightarrow> xs = [x]"
  by (cases xs) (auto simp: subset_singleton_iff)

subsection \<open>The examples\<close>

lemma year_now0: "getFullYear utc0 now0 = 2025"
  by code_simp

lemma agg_all0: "aggregate None votes0 = [\<lparr>entry_id = ''alice'', totalVotes = 6, debatesParticipated = 2\<rparr>]"
  by code_simp

lemma agg_week0:
  "aggregate None
     [\<lparr>userName = ''alice'', debateId = ''debateA'', votes = 3, createdAt = 1761454800000\<rparr>,
      \<lparr>userName = ''alice'', debateId = ''debateB'', votes = 1, createdAt = 1762000000000\<rparr>] =
   [\<lparr>entry_id = ''alice'', totalVotes = 4, debatesParticipated = 2\<rparr>]"
  by code_simp

subsection \<open>Totals per user\<close>

text \<open>
  Within the safe range every total is a safe integer: the sum of the votes of any part
  of the collection is bounded by the sum of the absolute values of all votes.
\<close>

lemma sum_list_abs_filter:
  "sum_list (map (\<lambda>r. \<bar>votes r\<bar>) (filter P recs)) \<le> sum_list (map (\<lambda>r. \<bar>votes r\<bar>) recs)"
  by (induction recs) auto

lemma safe_votes_total:
  assumes "safe_votes recs"
  shows "\<bar>sum_list (map votes (filter P recs))\<bar> \<le> MAX_SAFE_INTEGER"
proof -
  have "\<bar>sum_list (map votes (filter P recs))\<bar> \<le>
      sum_list (map abs (map votes (filter P recs)))"
    by (rule sum_list_abs)
  also have "\<dots> = sum_list (map (\<lambda>r. \<bar>votes r\<bar>) (filter P recs))"
    by (simp add: comp_def)
  also have "\<dots> \<le> sum_list (map (\<lambda>r. \<bar>votes r\<bar>) recs)"
    by (rule sum_list_abs_filter)
  finally show ?thesis using assms by (simp add: safe_votes_def)
qed

lemma safe_votes0: "safe_votes votes0"
  by (simp add: safe_votes_def votes0_def MAX_SAFE_INTEGER_def)

text \<open>
  Claim C6. With the filter \<^verbatim>\<open>all\<close>, on a collection whose votes are within the safe
  range, the leaderboard has exactly one entry for each user name of the collection; its
  \<open>totalVotes\<close> is the sum of the votes of the user's documents, a safe integer, and its
  \<open>debatesParticipated\<close> the number of distinct debates among them. For the documents
  (alice, debateA, 3), (alice, debateA, 2), (alice, debateB, 1) the entry of alice has 6
  votes and 2 debates.
\<close>

theorem leaderboard_all_totals:
  assumes "safe_votes (argumentsCollection db)"
  shows "\<exists>es. leaderboard LocalTZA now (Some ''all'') db =
       \<lparr>status = 200, payload = Leaderboard es\<rparr> \<and>
     distinct (map entry_id es) \<and>
     set es =
       (\<lambda>u. \<lparr>entry_id = u,
           totalVotes =
             sum_list (map votes (filter (\<lambda>r. userName r = u) (argumentsCollection db))),
           debatesParticipated =
             int (card (vote.debateId `
               set (filter (\<lambda>r. userName r = u) (argumentsCollection db))))\<rparr>) `
       userName ` set (argumentsCollection db) \<and>
     (\<forall>e \<in> set es. \<bar>totalVotes e\<bar> \<le> MAX_SAFE_INTEGER)"
proof -
  let ?es = "aggregate None (argumentsCollection db)"
  have "startDate LocalTZA now (filter_of (Some ''all'')) = None"
    by (simp add: startDate_def filter_of_def)
  then have l: "leaderboard LocalTZA now (Some ''all'') db =
      \<lparr>status = 200, payload = Leaderboard ?es\<rparr>"
    by (rule leaderboard_unfiltered)
  note a = aggregate_all[of "argumentsCollection db"]
  have "\<forall>e \<in> set ?es. \<bar>totalVotes e\<bar> \<le> MAX_SAFE_INTEGER"
    using a safe_votes_total[OF assms] by auto
  with l a show ?thesis by blast
qed

theorem leaderboard_all_totals_witness:
  "safe_votes (argumentsCollection db_votes) \<and>
   leaderboard utc0 now0 (Some ''all'') db_votes =
     \<lparr>status = 200,
      payload = Leaderboard [\<lparr>entry_id = ''alice'', totalVotes = 6, debatesParticipated = 2\<rparr>]\<rparr>"
proof -
  have v: "safe_votes (argumentsCollection db_votes)"
    by (simp add: db_votes_def safe_votes0)
  from leaderboard_all_totals[OF v, of utc0 now0] obtain es where
    l: "leaderboard utc0 now0 (Some ''all'') db_votes = \<lparr>status = 200, payload = Leaderboard es\<rparr>"
    and d: "distinct (map entry_id es)"
    and s: "set es =
       (\<lambda>u. \<lparr>entry_id = u,
           totalVotes =
             sum_list (map votes (filter (\<lambda>r. userName r = u) (argumentsCollection db_votes))),
           debatesParticipated =
             int (card (vote.debateId `
               set (filter (\<lambda>r. userName r = u) (argumentsCollection db_votes))))\<rparr>) `
       userName ` set (argumentsCollection db_votes)"
    by blast
  have "set es = {\<lparr>entry_id = ''alice'', totalVotes = 6, debatesParticipated = 2\<rparr>}"
    unfolding s by (simp add: db_votes_def votes0_def)
  moreover have "distinct es" using d by (simp add: distinct_map)
  ultimately have "es = [\<lparr>entry_id = ''alice'', totalVotes = 6, debatesParticipated = 2\<rparr>]"
    by (rule singleton_list[rotated])
  with l v show ?thesis by simp
qed

subsection \<open>The window\<close>

text \<open>
  Claim C7. With the filter \<^verbatim>\<open>weekly\<close> the leaderboard is computed from exactly the
  documents whose \<open>createdAt\<close> is at or after the start of the window: local midnight
  of the calendar day seven days before today's, which is a day count and not 168 hours
  before now. With the filter \<^verbatim>\<open>all\<close> it is computed from every document. The year of
  the clock is taken to be outside 0 to 99, which the \<^verbatim>\<open>Date\<close> constructor reads as
  1900 to 1999. In the example, at 15:00 of 2 November, the document of 26 October 05:00
  counts and the document of 25 October 23:00 does not.
\<close>

theorem leaderboard_weekly_window:
  assumes "getFullYear LocalTZA now < 0 \<or> 99 < getFullYear LocalTZA now"
  shows "leaderboard LocalTZA now (Some ''weekly'') db =
      \<lparr>status = 200,
       payload = Leaderboard (aggregate None
         (filter (\<lambda>r. UTC LocalTZA ((Day (LocalTime LocalTZA now) - 7) * msPerDay)
                       \<le> vote.createdAt r)
            (argumentsCollection db)))\<rparr> \<and>
    leaderboard LocalTZA now (Some ''all'') db =
      \<lparr>status = 200, payload = Leaderboard (aggregate None (argumentsCollection db))\<rparr>"
proof -
  have "startDate LocalTZA now (filter_of (Some ''all'')) = None"
    by (simp add: startDate_def filter_of_def)
  from leaderboard_unfiltered[OF this] startDate_weekly[OF assms]
  show ?thesis by (simp add: leaderboard_def filter_of_def Let_def aggregate_Some)
qed

theorem leaderboard_weekly_window_witness:
  "getFullYear utc0 now0 = 2025 \<and>
   (Day (LocalTime utc0 now0) - 7) * msPerDay = now0 - 7 * msPerDay - 54000000 \<and>
   leaderboard utc0 now0 (Some ''weekly'') db_votes =
     \<lparr>status = 200,
      payload = Leaderboard [\<lparr>entry_id = ''alice'', totalVotes = 4, debatesParticipated = 2\<rparr>]\<rparr> \<and>
   leaderboard utc0 now0 (Some ''all'') db_votes =
     \<lparr>status = 200,
      payload = Leaderboard [\<lparr>entry_id = ''alice'', totalVotes = 6, debatesParticipated = 2\<rparr>]\<rparr>"
proof -
  have y: "getFullYear utc0 now0 < 0 \<or> 99 < getFullYear utc0 now0"
    by (simp add: year_now0)
  have d: "(Day (LocalTime utc0 now0) - 7) * msPerDay = 1761436800000"
    by (simp add: Day_def LocalTime_def utc0_def now0_def msPerDay_def)
  have e: "now0 - 7 * msPerDay - 54000000 = 1761436800000"
    by (simp add: now0_def msPerDay_def)
  have l: "leaderboard utc0 now0 (Some ''weekly'') db_votes =
     \<lparr>status = 200,
      payload = Leaderboard [\<lparr>entry_id = ''alice'', totalVotes = 4, debatesParticipated = 2\<rparr>]\<rparr> \<and>
   leaderboard utc0 now0 (Some ''all'') db_votes =
     \<lparr>status = 200,
      payload = Leaderboard [\<lparr>entry_id = ''alice'', totalVotes = 6, debatesParticipated = 2\<rparr>]\<rparr>"
    using leaderboard_weekly_window[OF y, of db_votes] unfolding d
    by (simp add: UTC_def utc0_def db_votes_def votes0_def agg_week0 agg_all0[unfolded votes0_def])
  show ?thesis using year_now0 d e l by simp
qed

subsection \<open>Other filters\<close>

text \<open>
  Claim C8. A filter that is absent or any string other than \<^verbatim>\<open>weekly\<close> and
  \<^verbatim>\<open>monthly\<close> gives status 200 and the response of the filter \<^verbatim>\<open>all\<close>.
\<close>

theorem leaderboard_other_filter:
  assumes "q \<noteq> Some ''weekly''" and "q \<noteq> Some ''monthly''"
  shows "leaderboard LocalTZA now q db = leaderboard LocalTZA now (Some ''all'') db \<and>
         status (leaderboard LocalTZA now q db) = 200"
proof -
  have "filter_of q \<noteq> ''weekly''" "filter_of q \<noteq> ''monthly''"
    using assms by (auto simp: filter_of_def split: option.splits)
  then have "startDate LocalTZA now (filter_of q) = None"
    by (simp add: startDate_def)
  moreover have "startDate LocalTZA now (filter_of (Some ''all'')) = None"
    by (simp add: startDate_def filter_of_def)
  ultimately show ?thesis by (simp add: leaderboard_unfiltered)
qed

theorem leaderboard_other_filter_witness:
  "leaderboard utc0 now0 (Some ''yearly'') db_votes = leaderboard utc0 now0 (Some ''all'') db_votes \<and>
   leaderboard utc0 now0 (Some ''yearly'') db_votes =
     \<lparr>status = 200,
      payload = Leaderboard [\<lparr>entry_id = ''alice'', totalVotes = 6, debatesParticipated = 2\<rparr>]\<rparr>"
proof -
  have a: "leaderboard utc0 now0 (Some ''all'') db_votes =
     \<lparr>status = 200,
      payload = Leaderboard [\<lparr>entry_id = ''alice'', totalVotes = 6, debatesParticipated = 2\<rparr>]\<rparr>"
    by (simp add: leaderboard_def filter_of_def startDate_def Let_def db_votes_def agg_all0)
  from leaderboard_other_filter[of "Some ''yearly''" utc0 now0 db_votes] a show ?thesis by simp
qed

end
